theory Spec2Isabelle
  imports Main
begin

section \<open>Drive descriptors and the object store\<close>

text \<open>
  The module \<^verbatim>\<open>lib/gui/modules/drive-scanner.js\<close> receives drive descriptors from the
  \<^verbatim>\<open>drivelist\<close> library as JavaScript objects and writes a \<^verbatim>\<open>name\<close> property into
  each of them. Objects are therefore kept in a store: an array of descriptors is a list
  of addresses, and the store says what object lives at each address. The fields the
  module touches are \<^verbatim>\<open>device\<close>, \<^verbatim>\<open>system\<close>, \<^verbatim>\<open>mountpoints\<close> (which may be absent) and
  \<^verbatim>\<open>name\<close> (absent until it is assigned).
\<close>

record mountpoint =
  path :: string

record drive =
  device :: string
  system :: bool
  mountpoints :: "mountpoint list option"
  name :: "string option"

type_synonym addr = nat

type_synonym heap = "addr \<Rightarrow> drive"

section \<open>The lodash helpers the module calls\<close>

text \<open>\<^verbatim>\<open>_.isEmpty(value)\<close> on an absent value or on an array without elements.\<close>

definition lodash_isEmpty :: "mountpoint list option \<Rightarrow> bool" where
  "lodash_isEmpty v = (case v of None \<Rightarrow> True | Some [] \<Rightarrow> True | Some (p # ps) \<Rightarrow> False)"

text \<open>\<^verbatim>\<open>_.map(collection, 'path')\<close>: the \<^verbatim>\<open>path\<close> of every element, in order; an absent
  collection gives the empty array.\<close>

definition lodash_map_path :: "mountpoint list option \<Rightarrow> string list" where
  "lodash_map_path v = (case v of None \<Rightarrow> [] | Some ps \<Rightarrow> map path ps)"

text \<open>\<^verbatim>\<open>_.join(array, separator)\<close>.\<close>

fun lodash_join :: "string list \<Rightarrow> string \<Rightarrow> string" where
  "lodash_join [] sep = []"
| "lodash_join [x] sep = x"
| "lodash_join (x # y # ys) sep = x @ sep @ lodash_join (y # ys) sep"

text \<open>\<^verbatim>\<open>_.map(array, iteratee)\<close> with an iteratee that may write to the store: the
  elements are visited from left to right and the results collected in a new array.\<close>

fun lodash_map :: "(addr \<Rightarrow> heap \<Rightarrow> addr \<times> heap) \<Rightarrow> addr list \<Rightarrow> heap \<Rightarrow> addr list \<times> heap" where
  "lodash_map f [] h = ([], h)"
| "lodash_map f (r # rs) h =
     (case f r h of (r', h1) \<Rightarrow>
        (case lodash_map f rs h1 of (rs', h2) \<Rightarrow> (r' # rs', h2)))"

text \<open>\<^verbatim>\<open>_.reject(list, { system: true })\<close>: a new array without the elements whose
  \<^verbatim>\<open>system\<close> property is \<^verbatim>\<open>true\<close>.\<close>

definition lodash_reject_system :: "addr list \<Rightarrow> heap \<Rightarrow> addr list" where
  "lodash_reject_system list h = filter (\<lambda>r. \<not> (system (h r) = True)) list"

section \<open>\<^verbatim>\<open>DriveScanner.processDrives\<close>\<close>

text \<open>The arrow function given to \<^verbatim>\<open>_.map\<close>: it assigns \<^verbatim>\<open>drive.name\<close> on the object it
  is given (once, or twice on Windows when there are mount points) and returns that same
  object. \<^verbatim>\<open>os.platform()\<close> is the parameter \<open>platform\<close>.\<close>

definition process_drive :: "string \<Rightarrow> addr \<Rightarrow> heap \<Rightarrow> addr \<times> heap" where
  "process_drive platform drive h =
     (let h1 = h(drive := (h drive)\<lparr>name := Some (device (h drive))\<rparr>);
          h2 = (if platform = ''win32'' \<and> \<not> lodash_isEmpty (mountpoints (h1 drive))
                then h1(drive := (h1 drive)\<lparr>name :=
                       Some (lodash_join (lodash_map_path (mountpoints (h1 drive))) '', '')\<rparr>)
                else h1)
      in (drive, h2))"

definition processDrives :: "string \<Rightarrow> addr list \<Rightarrow> heap \<Rightarrow> addr list \<times> heap" where
  "processDrives platform drives h = lodash_map (process_drive platform) drives h"

section \<open>\<^verbatim>\<open>DriveScanner.scan\<close>\<close>

text \<open>
  \<^verbatim>\<open>scan\<close> hands \<^verbatim>\<open>drivelist.list\<close> a callback. The function below is that callback: it
  takes what \<^verbatim>\<open>drivelist\<close> reports (an error, or the array of descriptors, living in the
  store \<open>h\<close>) and gives what is passed on to \<^verbatim>\<open>scan\<close>'s own callback, with the store as
  it is then. The settings model is not part of this file; \<open>settings_get\<close> stands for
  \<^verbatim>\<open>settings.get\<close>, read for its truth value.
\<close>

definition scan :: "string \<Rightarrow> (string \<Rightarrow> bool) \<Rightarrow> 'e + addr list \<Rightarrow> heap \<Rightarrow> ('e + addr list) \<times> heap" where
  "scan platform settings_get listed h =
     (case listed of
        Inl error \<Rightarrow> (Inl error, h)
      | Inr drives \<Rightarrow>
          (case processDrives platform drives h of (list, h') \<Rightarrow>
             (Inr (if \<not> settings_get ''unsafeMode'' then lodash_reject_system list h' else list), h')))"

section \<open>The scanner object and what surrounds it\<close>

text \<open>
  A \<^verbatim>\<open>DriveScanner\<close> has four fields of its own: \<^verbatim>\<open>isRunning\<close>, \<^verbatim>\<open>timer\<close> (\<^verbatim>\<open>null\<close> or the
  handle of the last timeout it armed), \<^verbatim>\<open>scanCount\<close> and \<^verbatim>\<open>errorCount\<close>. What it does
  to its surroundings is kept beside them: \<open>timers\<close> are the timeouts of the event loop
  that have been armed and have neither fired nor been cleared (handle and delay; the
  callback of every one of them is \<^verbatim>\<open>this.run\<close>), \<open>nextHandle\<close> is the handle the next
  \<^verbatim>\<open>setTimeout\<close> returns, \<open>inflight\<close> counts the calls of \<^verbatim>\<open>drivelist.list\<close> whose
  callback is still to come, and \<open>emitted\<close> lists the events given to \<^verbatim>\<open>emit\<close>, oldest
  first. A \<^verbatim>\<open>drives\<close> event is recorded with the descriptors as they are when it is
  emitted. The two counters are JavaScript numbers, modelled as naturals: they count
  exactly as long as they stay below \<open>2 ^ 53\<close>.
\<close>

datatype 'e event = ErrorEvent 'e | DrivesEvent "drive list"

record 'e world =
  isRunning :: bool
  timer :: "nat option"
  scanCount :: nat
  errorCount :: nat
  timers :: "(nat \<times> nat) list"
  nextHandle :: nat
  inflight :: nat
  emitted :: "'e event list"

definition DRIVE_SCANNER_DELAY_MS :: nat where
  "DRIVE_SCANNER_DELAY_MS = 2000"

definition DRIVE_SCANNER_FIRST_SCAN_DELAY_MS :: nat where
  "DRIVE_SCANNER_FIRST_SCAN_DELAY_MS = 125"

text \<open>The constructor, in surroundings where nothing has happened yet.\<close>

definition new_DriveScanner :: "'e world" where
  "new_DriveScanner =
     \<lparr>isRunning = False, timer = None, scanCount = 0, errorCount = 0,
      timers = [], nextHandle = 0, inflight = 0, emitted = []\<rparr>"

text \<open>\<^verbatim>\<open>setTimeout(this.run, delay)\<close> arms a timeout and returns its handle;
  \<^verbatim>\<open>clearTimeout(handle)\<close> disarms it, and does nothing for \<^verbatim>\<open>null\<close> or for a handle that
  is no longer armed.\<close>

definition setTimeout :: "nat \<Rightarrow> 'e world \<Rightarrow> nat \<times> 'e world" where
  "setTimeout delay w =
     (nextHandle w,
      w\<lparr>timers := timers w @ [(nextHandle w, delay)], nextHandle := Suc (nextHandle w)\<rparr>)"

definition disarm :: "nat \<Rightarrow> (nat \<times> nat) list \<Rightarrow> (nat \<times> nat) list" where
  "disarm t ts = filter (\<lambda>p. fst p \<noteq> t) ts"

definition clearTimeout :: "nat option \<Rightarrow> 'e world \<Rightarrow> 'e world" where
  "clearTimeout handle w =
     (case handle of None \<Rightarrow> w | Some t \<Rightarrow> w\<lparr>timers := disarm t (timers w)\<rparr>)"

text \<open>\<^verbatim>\<open>this.emit(name, payload)\<close>, inherited from Node's \<^verbatim>\<open>EventEmitter\<close>.\<close>

definition emit :: "'e event \<Rightarrow> 'e world \<Rightarrow> 'e world" where
  "emit ev w = w\<lparr>emitted := emitted w @ [ev]\<rparr>"

definition start :: "'e world \<Rightarrow> 'e world" where
  "start w =
     (case setTimeout DRIVE_SCANNER_FIRST_SCAN_DELAY_MS (w\<lparr>isRunning := True\<rparr>) of
        (t, w1) \<Rightarrow> w1\<lparr>timer := Some t\<rparr>)"

definition stop :: "'e world \<Rightarrow> 'e world" where
  "stop w = (let w1 = w\<lparr>isRunning := False\<rparr> in clearTimeout (timer w1) w1)"

text \<open>\<^verbatim>\<open>run\<close> up to the point where \<^verbatim>\<open>DriveScanner.scan\<close> has called \<^verbatim>\<open>drivelist.list\<close>
  and returned: the enumeration is under way and its callback is still to come.\<close>

definition run :: "'e world \<Rightarrow> 'e world" where
  "run w =
     (if \<not> isRunning w then w
      else (let w1 = w\<lparr>scanCount := scanCount w + 1\<rparr> in w1\<lparr>inflight := Suc (inflight w1)\<rparr>))"

text \<open>
  The callback \<^verbatim>\<open>run\<close> gives to \<^verbatim>\<open>DriveScanner.scan\<close>, called with an error or with the
  list of descriptors (in the store \<open>h\<close>). \<^verbatim>\<open>emit\<close> calls the listeners, which are not part
  of the module: \<open>emit_returns\<close> says whether that call returns. It does not when a
  listener throws, nor when \<^verbatim>\<open>error\<close> is emitted and nobody listens for it (Node throws
  the error then); the exception leaves the callback before the next timeout is armed.
  A listener that calls \<^verbatim>\<open>start\<close> or \<^verbatim>\<open>stop\<close> has the effect of that call made just
  before the callback, as nothing the callback does before \<^verbatim>\<open>emit\<close> reads what they write.
  The call of \<^verbatim>\<open>debug\<close> only logs and is left out.
\<close>

definition run_callback :: "bool \<Rightarrow> 'e + addr list \<Rightarrow> heap \<Rightarrow> 'e world \<Rightarrow> 'e world" where
  "run_callback emit_returns res h w =
     (let w1 = (case res of
                  Inl error \<Rightarrow> emit (ErrorEvent error) (w\<lparr>errorCount := errorCount w + 1\<rparr>)
                | Inr drives \<Rightarrow> emit (DrivesEvent (map h drives)) w)
      in if \<not> emit_returns then w1
         else if isRunning w1
              then (case setTimeout DRIVE_SCANNER_DELAY_MS w1 of (t, w2) \<Rightarrow> w2\<lparr>timer := Some t\<rparr>)
              else w1)"

text \<open>
  What the surroundings contribute when an enumeration finishes: the outcome of
  \<^verbatim>\<open>drivelist.list\<close> with the store holding the descriptors it built, the settings as
  they are at that moment, and whether \<^verbatim>\<open>emit\<close> is going to return.
\<close>

record 'e completion =
  listed :: "'e + addr list"
  store :: heap
  setting :: "string \<Rightarrow> bool"
  emit_ok :: bool

definition complete :: "string \<Rightarrow> 'e completion \<Rightarrow> 'e world \<Rightarrow> 'e world" where
  "complete platform c w =
     (case scan platform (setting c) (listed c) (store c) of
        (res, h') \<Rightarrow> run_callback (emit_ok c) res h' (w\<lparr>inflight := inflight w - 1\<rparr>))"

text \<open>A timeout that fires is no longer armed, and calls \<^verbatim>\<open>run\<close>.\<close>

definition fire :: "nat \<Rightarrow> 'e world \<Rightarrow> 'e world" where
  "fire t w = run (w\<lparr>timers := disarm t (timers w)\<rparr>)"

section \<open>Histories\<close>

text \<open>
  Everything that can happen to a scanner: its user calls \<^verbatim>\<open>start\<close> or \<^verbatim>\<open>stop\<close>, an armed
  timeout fires, or an enumeration that is under way finishes. A history is a list of
  such steps; \<open>exec\<close> gives the state it leads to, or \<open>None\<close> when one of its steps
  cannot happen (a timeout that is not armed, a completion with no enumeration under
  way). Delays are not interpreted: an armed timeout may fire at any time.
\<close>

datatype 'e action = Start | Stop | Fire nat | Complete "'e completion"

fun enabled :: "'e action \<Rightarrow> 'e world \<Rightarrow> bool" where
  "enabled Start w = True"
| "enabled Stop w = True"
| "enabled (Fire t) w = (t \<in> fst ` set (timers w))"
| "enabled (Complete c) w = (0 < inflight w)"

fun step :: "string \<Rightarrow> 'e action \<Rightarrow> 'e world \<Rightarrow> 'e world" where
  "step platform Start w = start w"
| "step platform Stop w = stop w"
| "step platform (Fire t) w = fire t w"
| "step platform (Complete c) w = complete platform c w"

fun exec :: "string \<Rightarrow> 'e action list \<Rightarrow> 'e world \<Rightarrow> 'e world option" where
  "exec platform [] w = Some w"
| "exec platform (a # as) w =
     (if enabled a w then exec platform as (step platform a w) else None)"

section \<open>Auxiliary definitions\<close>

text \<open>The value the arrow function of \<^verbatim>\<open>processDrives\<close> leaves in \<^verbatim>\<open>drive.name\<close>, read off
  its two assignments.\<close>

definition assigned_name :: "string \<Rightarrow> drive \<Rightarrow> string" where
  "assigned_name platform d =
     (if platform = ''win32'' \<and> \<not> lodash_isEmpty (mountpoints d)
      then lodash_join (lodash_map_path (mountpoints d)) '', ''
      else device d)"

text \<open>Concrete descriptors, stores and completions used to instantiate the theorems.
  \<open>CHR 0x5C\<close> is the backslash.\<close>

definition sda :: drive where
  "sda = \<lparr>device = ''/dev/sda'', system = True, mountpoints = None, name = None\<rparr>"

definition sdb :: drive where
  "sdb = \<lparr>device = ''/dev/sdb'', system = False, mountpoints = None, name = None\<rparr>"

definition two_drives :: heap where
  "two_drives r = (if r = 0 then sda else sdb)"

definition windows_drive :: drive where
  "windows_drive =
     \<lparr>device = ''PhysicalDrive1'', system = False,
      mountpoints = Some [\<lparr>path = ''D:'' @ [CHR 0x5C]\<rparr>, \<lparr>path = ''E:'' @ [CHR 0x5C]\<rparr>],
      name = None\<rparr>"

definition windows_store :: heap where
  "windows_store r = windows_drive"

definition safe_settings :: "string \<Rightarrow> bool" where
  "safe_settings key = False"

definition failed_listing :: "string completion" where
  "failed_listing =
     \<lparr>listed = Inl ''EPERM'', store = two_drives, setting = safe_settings, emit_ok = True\<rparr>"

definition good_listing :: "string completion" where
  "good_listing =
     \<lparr>listed = Inr [0, 1], store = two_drives, setting = safe_settings, emit_ok = True\<rparr>"

text \<open>A failed enumeration reported to a scanner nobody has attached an \<^verbatim>\<open>error\<close>
  listener to, as is the exported \<^verbatim>\<open>new DriveScanner()\<close> until its user does so.\<close>

definition unheard_failure :: "string completion" where
  "unheard_failure =
     \<lparr>listed = Inl ''EPERM'', store = two_drives, setting = safe_settings, emit_ok = False\<rparr>"

section \<open>Facts about post-processing\<close>

lemma process_drive_fst: "fst (process_drive p r h) = r"
  by (simp add: process_drive_def Let_def)

lemma process_drive_snd:
  "snd (process_drive p r h) = h(r := (h r)\<lparr>name := Some (assigned_name p (h r))\<rparr>)"
  by (auto simp add: process_drive_def Let_def assigned_name_def)

lemma assigned_name_ignores_name [simp]:
  "assigned_name p (d\<lparr>name := n\<rparr>) = assigned_name p d"
  by (simp add: assigned_name_def)

lemma lodash_map_fst:
  "(\<And>r h. fst (f r h) = r) \<Longrightarrow> fst (lodash_map f rs h) = rs"
proof (induction rs arbitrary: h)
  case Nil
  show ?case by simp
next
  case (Cons a rs)
  obtain r' h1 where f: "f a h = (r', h1)" by (cases "f a h")
  obtain rs' h2 where m: "lodash_map f rs h1 = (rs', h2)" by (cases "lodash_map f rs h1")
  have "r' = a" using Cons.prems[of a h] f by simp
  moreover have "rs' = rs" using Cons.IH[OF Cons.prems, of h1] m by simp
  ultimately show ?case using f m by simp
qed

lemma processDrives_fst: "fst (processDrives p rs h) = rs"
  unfolding processDrives_def by (rule lodash_map_fst) (rule process_drive_fst)

text \<open>The store after \<^verbatim>\<open>processDrives\<close>: the objects of the list carry their new name,
  every other object is as before. An object that occurs twice in the list is assigned
  twice, with the same value.\<close>

lemma processDrives_snd:
  "snd (processDrives p rs h) r =
     (if r \<in> set rs then (h r)\<lparr>name := Some (assigned_name p (h r))\<rparr> else h r)"
  unfolding processDrives_def
proof (induction rs arbitrary: h)
  case Nil
  show ?case by simp
next
  case (Cons a rs)
  obtain r' h1 where f: "process_drive p a h = (r', h1)" by (cases "process_drive p a h")
  have h1: "h1 = h(a := (h a)\<lparr>name := Some (assigned_name p (h a))\<rparr>)"
    using process_drive_snd[of p a h] f by simp
  obtain rs' h2 where m: "lodash_map (process_drive p) rs h1 = (rs', h2)"
    by (cases "lodash_map (process_drive p) rs h1")
  have "snd (lodash_map (process_drive p) (a # rs) h) r = h2 r"
    using f m by simp
  also have "h2 r = (if r \<in> set rs then (h1 r)\<lparr>name := Some (assigned_name p (h1 r))\<rparr> else h1 r)"
    using Cons.IH[of h1] m by simp
  also have "\<dots> = (if r \<in> set (a # rs) then (h r)\<lparr>name := Some (assigned_name p (h r))\<rparr> else h r)"
    by (auto simp: h1)
  finally show ?case .
qed

lemma scan_Inl: "scan p sg (Inl e) h = (Inl e, h)"
  by (simp add: scan_def)

lemma scan_Inr:
  "scan p sg (Inr rs) h =
     (Inr (if sg ''unsafeMode'' then rs else filter (\<lambda>r. \<not> system (h r)) rs),
      snd (processDrives p rs h))"
  using processDrives_fst[of p rs h] processDrives_snd[of p rs h]
  by (auto simp: scan_def lodash_reject_system_def split: prod.splits intro!: filter_cong)

section \<open>Post-processing and filtering\<close>

text \<open>
  Claim C1. When \<^verbatim>\<open>drivelist\<close> reports a list of descriptors, what \<^verbatim>\<open>scan\<close> passes on is,
  with the unsafe-mode setting false, the input list without the descriptors whose
  \<^verbatim>\<open>system\<close> flag is true, the others in their input order; with the setting true it is
  the whole input list. The flags themselves are not changed on the way.
\<close>

theorem scan_rejects_system_drives:
  "scan platform settings_get (Inr drives) h = (res, h') \<Longrightarrow>
     (\<forall>r. system (h' r) = system (h r)) \<and>
     res = Inr (if settings_get ''unsafeMode'' then drives
                else filter (\<lambda>r. \<not> system (h' r)) drives)"
  using processDrives_snd[of platform drives h]
  by (auto simp: scan_Inr intro!: filter_cong)

theorem scan_rejects_system_drives_witness:
  "scan ''linux'' safe_settings (Inr [0, 1, 2]) two_drives
     = (Inr [1, 2] :: string + addr list, snd (processDrives ''linux'' [0, 1, 2] two_drives)) \<and>
   system (two_drives 0) \<and> \<not> system (two_drives 1) \<and>
   (\<forall>r. system (snd (processDrives ''linux'' [0, 1, 2] two_drives) r) = system (two_drives r))"
  using scan_rejects_system_drives [of "''linux''" safe_settings "[0, 1, 2]" two_drives
      "Inr [1, 2] :: string + addr list" "snd (processDrives ''linux'' [0, 1, 2] two_drives)"]
  by (simp add: scan_def processDrives_def process_drive_def lodash_reject_system_def
      two_drives_def sda_def sdb_def safe_settings_def)

text \<open>
  Claim C2. For every descriptor in the list given to \<^verbatim>\<open>processDrives\<close>, the name it
  carries afterwards is: on a platform other than \<^verbatim>\<open>win32\<close>, its device identifier,
  whatever its mount points; on \<^verbatim>\<open>win32\<close>, the paths of its mount points joined by
  \<^verbatim>\<open>", "\<close> in their order when it has at least one, and its device identifier when the
  mount points are absent or empty.
\<close>

theorem processDrives_display_name:
  "r \<in> set drives \<Longrightarrow>
   name (snd (processDrives platform drives h) r) =
     Some (if platform = ''win32''
           then (case mountpoints (h r) of
                   None \<Rightarrow> device (h r)
                 | Some [] \<Rightarrow> device (h r)
                 | Some (m # ms) \<Rightarrow> lodash_join (map path (m # ms)) '', '')
           else device (h r))"
  by (simp add: processDrives_snd assigned_name_def lodash_isEmpty_def lodash_map_path_def
       split: option.splits list.splits)

theorem processDrives_display_name_witness:
  "(0::nat) \<in> set [0] \<and>
   name (snd (processDrives ''win32'' [0] windows_store) 0)
     = Some (''D:'' @ [CHR 0x5C] @ '', E:'' @ [CHR 0x5C]) \<and>
   name (snd (processDrives ''linux'' [0] windows_store) 0) = Some ''PhysicalDrive1''"
  using processDrives_display_name [of 0 "[0]" "''win32''" windows_store]
    processDrives_display_name [of 0 "[0]" "''linux''" windows_store]
  by (simp add: windows_store_def windows_drive_def)

text \<open>
  Claim C7, which says that \<^verbatim>\<open>processDrives\<close> leaves its input descriptors unmodified,
  does not hold: the arrow function assigns \<^verbatim>\<open>drive.name\<close> on the object it is given.
  Processing the one-element list holding \<^verbatim>\<open>/dev/sda\<close> changes that object in the store.
\<close>

theorem processDrives_mutates_descriptor:
  "snd (processDrives ''linux'' [0] two_drives) 0 \<noteq> two_drives 0"
  by (simp add: processDrives_def process_drive_def two_drives_def sda_def)

text \<open>
  Claim C7 as amended. \<^verbatim>\<open>processDrives\<close> returns an array of the same descriptor objects
  in the same order. It writes the \<^verbatim>\<open>name\<close> property of every descriptor of the list,
  in place, and nothing else: the other properties of those descriptors, and every
  object outside the list, are as before. Being a function of the platform, the list and
  the store, its result depends on nothing else.
\<close>

theorem processDrives_writes_only_name:
  "processDrives platform drives h = (out, h') \<Longrightarrow>
     out = drives \<and>
     (\<forall>r. h' r = (if r \<in> set drives then (h r)\<lparr>name := name (h' r)\<rparr> else h r)) \<and>
     (\<forall>r\<in>set drives. name (h' r) \<noteq> None)"
  using processDrives_fst[of platform drives h] processDrives_snd[of platform drives h]
  by auto

theorem processDrives_writes_only_name_witness:
  "processDrives ''linux'' [0] two_drives = ([0], two_drives(0 := sda\<lparr>name := Some ''/dev/sda''\<rparr>)) \<and>
   (two_drives(0 := sda\<lparr>name := Some ''/dev/sda''\<rparr>)) 1 = two_drives 1"
  using processDrives_writes_only_name [of "''linux''" "[0]" two_drives "[0]"
      "two_drives(0 := sda\<lparr>name := Some ''/dev/sda''\<rparr>)"]
  by (simp add: processDrives_def process_drive_def two_drives_def sda_def)

section \<open>Facts about the scanner's operations\<close>

text \<open>What each operation does to each component of the state.\<close>

lemma start_fields:
  "isRunning (start w) = True" "timer (start w) = Some (nextHandle w)"
  "scanCount (start w) = scanCount w" "errorCount (start w) = errorCount w"
  "timers (start w) = timers w @ [(nextHandle w, DRIVE_SCANNER_FIRST_SCAN_DELAY_MS)]"
  "nextHandle (start w) = Suc (nextHandle w)"
  "inflight (start w) = inflight w" "emitted (start w) = emitted w"
  by (simp_all add: start_def setTimeout_def)

lemma stop_fields:
  "isRunning (stop w) = False" "timer (stop w) = timer w"
  "scanCount (stop w) = scanCount w" "errorCount (stop w) = errorCount w"
  "timers (stop w) = (case timer w of None \<Rightarrow> timers w | Some t \<Rightarrow> disarm t (timers w))"
  "nextHandle (stop w) = nextHandle w"
  "inflight (stop w) = inflight w" "emitted (stop w) = emitted w"
  by (simp_all add: stop_def clearTimeout_def Let_def split: option.splits)

lemma run_fields:
  "isRunning (run w) = isRunning w" "timer (run w) = timer w"
  "scanCount (run w) = (if isRunning w then scanCount w + 1 else scanCount w)"
  "errorCount (run w) = errorCount w"
  "timers (run w) = timers w" "nextHandle (run w) = nextHandle w"
  "inflight (run w) = (if isRunning w then inflight w + 1 else inflight w)"
  "emitted (run w) = emitted w"
  by (simp_all add: run_def Let_def)

lemma fire_fields:
  "isRunning (fire t w) = isRunning w" "timer (fire t w) = timer w"
  "scanCount (fire t w) = (if isRunning w then scanCount w + 1 else scanCount w)"
  "errorCount (fire t w) = errorCount w"
  "timers (fire t w) = disarm t (timers w)" "nextHandle (fire t w) = nextHandle w"
  "inflight (fire t w) = (if isRunning w then inflight w + 1 else inflight w)"
  "emitted (fire t w) = emitted w"
  by (simp_all add: fire_def run_fields)

lemma run_callback_fields:
  "isRunning (run_callback b res h w) = isRunning w"
  "timer (run_callback b res h w) = (if b \<and> isRunning w then Some (nextHandle w) else timer w)"
  "scanCount (run_callback b res h w) = scanCount w"
  "errorCount (run_callback b res h w) =
     (case res of Inl e \<Rightarrow> errorCount w + 1 | Inr rs \<Rightarrow> errorCount w)"
  "timers (run_callback b res h w) =
     (if b \<and> isRunning w then timers w @ [(nextHandle w, DRIVE_SCANNER_DELAY_MS)] else timers w)"
  "nextHandle (run_callback b res h w) =
     (if b \<and> isRunning w then Suc (nextHandle w) else nextHandle w)"
  "inflight (run_callback b res h w) = inflight w"
  "emitted (run_callback b res h w) =
     emitted w @ [case res of Inl e \<Rightarrow> ErrorEvent e | Inr rs \<Rightarrow> DrivesEvent (map h rs)]"
  by (simp_all add: run_callback_def setTimeout_def emit_def Let_def split: sum.splits)

lemma complete_fields:
  "isRunning (complete p c w) = isRunning w"
  "timer (complete p c w) = (if emit_ok c \<and> isRunning w then Some (nextHandle w) else timer w)"
  "scanCount (complete p c w) = scanCount w"
  "errorCount (complete p c w) =
     (case listed c of Inl e \<Rightarrow> errorCount w + 1 | Inr rs \<Rightarrow> errorCount w)"
  "timers (complete p c w) =
     (if emit_ok c \<and> isRunning w then timers w @ [(nextHandle w, DRIVE_SCANNER_DELAY_MS)]
      else timers w)"
  "nextHandle (complete p c w) =
     (if emit_ok c \<and> isRunning w then Suc (nextHandle w) else nextHandle w)"
  "inflight (complete p c w) = inflight w - 1"
  "emitted (complete p c w) =
     emitted w @ [case fst (scan p (setting c) (listed c) (store c)) of
                    Inl e \<Rightarrow> ErrorEvent e
                  | Inr rs \<Rightarrow> DrivesEvent (map (snd (scan p (setting c) (listed c) (store c))) rs)]"
  by (cases "listed c";
      simp add: complete_def run_callback_fields scan_Inl scan_Inr split: prod.splits)+

lemma complete_Inl:
  "listed c = Inl e \<Longrightarrow>
   complete p c w = run_callback (emit_ok c) (Inl e) (store c) (w\<lparr>inflight := inflight w - 1\<rparr>)"
  by (simp add: complete_def scan_Inl)



text \<open>A scanner that is not running, and anything but \<^verbatim>\<open>start\<close> happening to it.\<close>

lemma stopped_step:
  assumes "\<not> isRunning w" "a \<noteq> Start" "enabled a w"
  shows "\<not> isRunning (step p a w) \<and> scanCount (step p a w) = scanCount w \<and>
         set (timers (step p a w)) \<subseteq> set (timers w) \<and>
         (\<exists>new. emitted (step p a w) = emitted w @ new \<and>
                 length new + inflight (step p a w) = inflight w)"
  using assms
  by (cases a)
     (auto simp add: stop_fields fire_fields complete_fields disarm_def split: option.splits)

lemma stopped_exec:
  "exec p as w = Some w' \<Longrightarrow> \<not> isRunning w \<Longrightarrow> Start \<notin> set as \<Longrightarrow>
     \<not> isRunning w' \<and> scanCount w' = scanCount w \<and> set (timers w') \<subseteq> set (timers w) \<and>
     (\<exists>new. emitted w' = emitted w @ new \<and> length new + inflight w' = inflight w)"
proof (induction as arbitrary: w)
  case Nil
  then show ?case by simp
next
  case (Cons a as)
  from Cons.prems have en: "enabled a w" and ex: "exec p as (step p a w) = Some w'"
    and ns: "a \<noteq> Start" "Start \<notin> set as"
    by (auto split: if_splits)
  note s = stopped_step[OF Cons.prems(2) ns(1) en, of p]
  from s have nr: "\<not> isRunning (step p a w)" by simp
  note ih = Cons.IH[OF ex nr ns(2)]
  from s obtain n1 where n1: "emitted (step p a w) = emitted w @ n1"
     "length n1 + inflight (step p a w) = inflight w" by blast
  from ih obtain n2 where n2: "emitted w' = emitted (step p a w) @ n2"
     "length n2 + inflight w' = inflight (step p a w)" by blast
  have "emitted w' = emitted w @ (n1 @ n2) \<and> length (n1 @ n2) + inflight w' = inflight w"
    using n1 n2 by simp
  then have "\<exists>new. emitted w' = emitted w @ new \<and> length new + inflight w' = inflight w"
    by blast
  with s ih show ?case by auto
qed

section \<open>The polling loop\<close>

text \<open>
  Claim C3 says that after every failed enumeration a running scanner schedules the
  next scan. It does not when the \<^verbatim>\<open>emit\<close> call throws, as Node's \<^verbatim>\<open>emit\<close> does for an
  \<^verbatim>\<open>error\<close> event nobody listens for: the exception leaves the callback before
  \<^verbatim>\<open>setTimeout\<close> is reached. The scanner has been started and its first timeout has
  fired; the enumeration fails; afterwards the scanner is still running, the error has
  been counted and emitted, and no timeout is armed.
\<close>

theorem failed_enumeration_unheard_not_rescheduled:
  "listed unheard_failure = Inl ''EPERM'' \<and>
   isRunning (complete ''linux'' unheard_failure (fire 0 (start new_DriveScanner))) \<and>
   emitted (complete ''linux'' unheard_failure (fire 0 (start new_DriveScanner)))
     = [ErrorEvent ''EPERM''] \<and>
   errorCount (complete ''linux'' unheard_failure (fire 0 (start new_DriveScanner))) = 1 \<and>
   timers (complete ''linux'' unheard_failure (fire 0 (start new_DriveScanner))) = []"
  by (simp add: unheard_failure_def complete_fields fire_fields start_fields
      new_DriveScanner_def disarm_def scan_Inl)

text \<open>
  Claim C3 as amended. When an enumeration finishes with an error, the callback emits
  exactly one event, the \<^verbatim>\<open>error\<close> event carrying that error, and no \<^verbatim>\<open>drives\<close> event,
  and the error counter goes up by exactly one. If the scanner is running and the
  \<^verbatim>\<open>emit\<close> call returns, one timeout with the steady-state delay is armed and its handle
  stored in \<^verbatim>\<open>timer\<close>. If the \<^verbatim>\<open>emit\<close> call throws, or the scanner is not running, no
  timeout is armed and \<^verbatim>\<open>timer\<close> keeps its value.
\<close>

theorem failed_enumeration_tick:
  "listed c = Inl e \<Longrightarrow>
   emitted (complete platform c w) = emitted w @ [ErrorEvent e] \<and>
   errorCount (complete platform c w) = errorCount w + 1 \<and>
   isRunning (complete platform c w) = isRunning w \<and>
   (emit_ok c \<and> isRunning w \<longrightarrow>
      timers (complete platform c w) = timers w @ [(nextHandle w, DRIVE_SCANNER_DELAY_MS)] \<and>
      timer (complete platform c w) = Some (nextHandle w)) \<and>
   (\<not> isRunning w \<longrightarrow> timers (complete platform c w) = timers w) \<and>
   (\<not> emit_ok c \<or> \<not> isRunning w \<longrightarrow>
      timers (complete platform c w) = timers w \<and> timer (complete platform c w) = timer w)"
  by (auto simp add: complete_fields scan_Inl)

theorem failed_enumeration_tick_witness:
  "listed failed_listing = Inl ''EPERM'' \<and> emit_ok failed_listing \<and>
   isRunning (fire 0 (start new_DriveScanner) :: string world) \<and>
   emitted (complete ''linux'' failed_listing (fire 0 (start new_DriveScanner)))
     = [ErrorEvent ''EPERM''] \<and>
   errorCount (complete ''linux'' failed_listing (fire 0 (start new_DriveScanner))) = 1 \<and>
   timers (complete ''linux'' failed_listing (fire 0 (start new_DriveScanner))) = [(1, 2000)] \<and>
   timer (complete ''linux'' failed_listing (fire 0 (start new_DriveScanner))) = Some 1 \<and>
   \<not> isRunning (stop (fire 0 (start new_DriveScanner)) :: string world) \<and>
   emitted (complete ''linux'' failed_listing (stop (fire 0 (start new_DriveScanner))))
     = [ErrorEvent ''EPERM''] \<and>
   timers (complete ''linux'' failed_listing (stop (fire 0 (start new_DriveScanner)))) = [] \<and>
   listed unheard_failure = Inl ''EPERM'' \<and> \<not> emit_ok unheard_failure \<and>
   timers (complete ''linux'' unheard_failure (fire 0 (start new_DriveScanner))) = [] \<and>
   timer (complete ''linux'' unheard_failure (fire 0 (start new_DriveScanner))) = Some 0"
  using failed_enumeration_tick [where c = failed_listing and e = "''EPERM''"
      and platform = "''linux''" and w = "fire 0 (start new_DriveScanner)"]
    failed_enumeration_tick [where c = failed_listing and e = "''EPERM''"
      and platform = "''linux''" and w = "stop (fire 0 (start new_DriveScanner))"]
    failed_enumeration_tick [where c = unheard_failure and e = "''EPERM''"
      and platform = "''linux''" and w = "fire 0 (start new_DriveScanner)"]
  by (simp add: failed_listing_def unheard_failure_def stop_fields fire_fields start_fields
      new_DriveScanner_def disarm_def DRIVE_SCANNER_DELAY_MS_def)

text \<open>
  Claim C4 asks for at most one armed timeout at any instant, also when \<^verbatim>\<open>start\<close> is
  called on a running scanner. \<^verbatim>\<open>start\<close> overwrites \<^verbatim>\<open>this.timer\<close> without clearing the
  timeout it refers to: after two calls of \<^verbatim>\<open>start\<close> on a new scanner two timeouts are
  armed, and only the second can still be cleared by \<^verbatim>\<open>stop\<close>; when both have
  fired, two enumerations are under way at once. The same happens without a second
  \<^verbatim>\<open>start\<close> on a running scanner: \<^verbatim>\<open>stop\<close> and \<^verbatim>\<open>start\<close> while an enumeration is under
  way leave the timeout of \<^verbatim>\<open>start\<close> and, once the enumeration finishes, that of its
  callback.
\<close>

theorem start_twice_arms_two_timers:
  "map_option timers (exec ''linux'' [Start, Start] (new_DriveScanner :: string world))
     = Some [(0, DRIVE_SCANNER_FIRST_SCAN_DELAY_MS), (1, DRIVE_SCANNER_FIRST_SCAN_DELAY_MS)] \<and>
   map_option inflight
     (exec ''linux'' [Start, Start, Fire 0, Fire 1] (new_DriveScanner :: string world)) = Some 2 \<and>
   map_option timers
     (exec ''linux'' [Start, Fire 0, Stop, Start, Complete good_listing]
        (new_DriveScanner :: string world))
     = Some [(1, DRIVE_SCANNER_FIRST_SCAN_DELAY_MS), (2, DRIVE_SCANNER_DELAY_MS)]"
  by (simp add: start_fields stop_fields fire_fields complete_fields new_DriveScanner_def
      disarm_def good_listing_def)

text \<open>
  Claim C5. After \<^verbatim>\<open>stop\<close>, and as long as \<^verbatim>\<open>start\<close> is not called: the scanner stays
  stopped, no scan is executed (the scan counter keeps its value), no timeout is armed,
  and the only events emitted are those of enumerations that were under way when
  \<^verbatim>\<open>stop\<close> was called, one for each that finishes. With no enumeration under way no
  event is emitted at all.
\<close>

theorem no_scan_after_stop:
  "exec platform acts (stop w) = Some w' \<Longrightarrow> Start \<notin> set acts \<Longrightarrow>
     \<not> isRunning w' \<and> scanCount w' = scanCount w \<and>
     set (timers w') \<subseteq> set (timers (stop w)) \<and>
     (\<exists>late. emitted w' = emitted w @ late \<and> length late + inflight w' = inflight w) \<and>
     (inflight w = 0 \<longrightarrow> emitted w' = emitted w)"
proof -
  assume a: "exec platform acts (stop w) = Some w'" "Start \<notin> set acts"
  have nr: "\<not> isRunning (stop w)" by (simp add: stop_fields)
  have eq: "scanCount (stop w) = scanCount w" "emitted (stop w) = emitted w"
    "inflight (stop w) = inflight w"
    by (simp_all add: stop_fields)
  from stopped_exec[OF a(1) nr a(2)] eq show ?thesis by auto
qed

theorem no_scan_after_stop_witness:
  "exec ''linux'' [Complete failed_listing, Stop] (stop (fire 0 (start new_DriveScanner)))
     = Some (stop (complete ''linux'' failed_listing (stop (fire 0 (start new_DriveScanner))))) \<and>
   Start \<notin> set [Complete failed_listing, Stop] \<and>
   inflight (fire 0 (start new_DriveScanner) :: string world) = 1 \<and>
   scanCount (stop (complete ''linux'' failed_listing (stop (fire 0 (start new_DriveScanner))))) = 1 \<and>
   emitted (stop (complete ''linux'' failed_listing (stop (fire 0 (start new_DriveScanner)))))
     = [ErrorEvent ''EPERM''] \<and>
   timers (stop (complete ''linux'' failed_listing (stop (fire 0 (start new_DriveScanner))))) = [] \<and>
   inflight (start new_DriveScanner :: string world) = 0 \<and>
   exec ''linux'' [Stop] (stop (start new_DriveScanner))
     = Some (stop (stop (start new_DriveScanner)) :: string world) \<and>
   emitted (stop (stop (start new_DriveScanner)) :: string world) = []"
  using no_scan_after_stop [where platform = "''linux''"
      and acts = "[Complete failed_listing, Stop]" and w = "fire 0 (start new_DriveScanner)"
      and w' = "stop (complete ''linux'' failed_listing (stop (fire 0 (start new_DriveScanner))))"]
    no_scan_after_stop [where platform = "''linux''" and acts = "[Stop]"
      and w = "start new_DriveScanner :: string world"
      and w' = "stop (stop (start new_DriveScanner))"]
  by (simp add: failed_listing_def complete_fields stop_fields fire_fields start_fields
      new_DriveScanner_def disarm_def scan_Inl)

text \<open>
  Claim C6. On a platform other than \<^verbatim>\<open>win32\<close>, with the unsafe-mode setting false, when
  the enumeration reports the descriptors \<^verbatim>\<open>{device: "/dev/sda", system: true}\<close> and
  \<^verbatim>\<open>{device: "/dev/sdb", system: false}\<close>, the event emitted is \<^verbatim>\<open>drives\<close> with the
  payload \<^verbatim>\<open>[{device: "/dev/sdb", system: false, name: "/dev/sdb"}]\<close>.
\<close>

theorem scan_scenario_sdb:
  "platform \<noteq> ''win32'' \<Longrightarrow> \<not> setting c ''unsafeMode'' \<Longrightarrow> listed c = Inr [a, b] \<Longrightarrow>
   store c a = \<lparr>device = ''/dev/sda'', system = True, mountpoints = None, name = None\<rparr> \<Longrightarrow>
   store c b = \<lparr>device = ''/dev/sdb'', system = False, mountpoints = None, name = None\<rparr> \<Longrightarrow>
   emitted (complete platform c w) = emitted w @
     [DrivesEvent [\<lparr>device = ''/dev/sdb'', system = False, mountpoints = None,
                    name = Some ''/dev/sdb''\<rparr>]]"
  by (auto simp add: complete_fields scan_def processDrives_def process_drive_def
        lodash_reject_system_def Let_def)

theorem scan_scenario_sdb_witness:
  "''linux'' \<noteq> ''win32'' \<and> \<not> setting good_listing ''unsafeMode'' \<and>
   listed good_listing = Inr [0, 1] \<and>
   store good_listing 0 = \<lparr>device = ''/dev/sda'', system = True, mountpoints = None, name = None\<rparr> \<and>
   store good_listing 1 = \<lparr>device = ''/dev/sdb'', system = False, mountpoints = None, name = None\<rparr> \<and>
   emitted (complete ''linux'' good_listing (fire 0 (start new_DriveScanner))) =
     [DrivesEvent [\<lparr>device = ''/dev/sdb'', system = False, mountpoints = None,
                    name = Some ''/dev/sdb''\<rparr>]]"
  using scan_scenario_sdb [where platform = "''linux''" and c = good_listing and a = 0 and b = 1
      and w = "fire 0 (start new_DriveScanner)"]
  by (simp add: good_listing_def safe_settings_def two_drives_def sda_def sdb_def
      fire_fields start_fields new_DriveScanner_def)

text \<open>
  Claim C8. \<^verbatim>\<open>run\<close> on a scanner that is not running returns at once and changes
  nothing: no enumeration is started, no counter changes, nothing is emitted, no timeout
  is armed.
\<close>

theorem run_when_stopped:
  "\<not> isRunning w \<Longrightarrow> run w = w"
  by (simp add: run_def)

theorem run_when_stopped_witness:
  "\<not> isRunning (stop (start new_DriveScanner) :: string world) \<and>
   run (stop (start new_DriveScanner) :: string world) = stop (start new_DriveScanner)"
  using run_when_stopped [of "stop (start new_DriveScanner) :: string world"]
  by (simp add: stop_fields)



text \<open>
  Claim C10. The completion of a scan emits exactly one event: \<^verbatim>\<open>error\<close>, with the
  error, when the enumeration reported an error, and \<^verbatim>\<open>drives\<close> otherwise. On the error
  path \<^verbatim>\<open>scan\<close> leaves the store of descriptors as it is (nothing is post-processed) and
  the outcome is the same whatever the settings and the platform are (neither is read).
\<close>

theorem completion_emits_exactly_one_event:
  "(case listed c of
      Inl e \<Rightarrow>
        emitted (complete platform c w) = emitted w @ [ErrorEvent e] \<and>
        snd (scan platform (setting c) (listed c) (store c)) = store c \<and>
        (\<forall>platform' settings_get'.
           complete platform' (c\<lparr>setting := settings_get'\<rparr>) w = complete platform c w)
    | Inr drives \<Rightarrow>
        (\<exists>payload. emitted (complete platform c w) = emitted w @ [DrivesEvent payload]))"
  by (cases "listed c")
     (simp_all add: complete_fields complete_Inl run_callback_fields scan_Inl scan_Inr)

theorem completion_emits_exactly_one_event_witness:
  "emitted (complete ''linux'' failed_listing (fire 0 (start new_DriveScanner)))
     = [ErrorEvent ''EPERM''] \<and>
   snd (scan ''linux'' safe_settings (Inl ''EPERM'') two_drives) = two_drives \<and>
   (\<exists>payload. emitted (complete ''linux'' good_listing (fire 0 (start new_DriveScanner)))
     = [DrivesEvent payload])"
  using completion_emits_exactly_one_event [where c = failed_listing and platform = "''linux''"
      and w = "fire 0 (start new_DriveScanner)"]
    completion_emits_exactly_one_event [where c = good_listing and platform = "''linux''"
      and w = "fire 0 (start new_DriveScanner)"]
  by (simp add: failed_listing_def good_listing_def fire_fields start_fields
      new_DriveScanner_def)

end
